theory Spec2Isabelle
  imports Complex_Main
begin

section \<open>Python values\<close>

text \<open>
  The exceptions of the Python run time that the crawler can meet. All of them derive
  from \<^verbatim>\<open>Exception\<close> but \<^verbatim>\<open>CancelledError\<close>, which derives from
  \<^verbatim>\<open>BaseException\<close> only and so is not caught by \<^verbatim>\<open>except Exception\<close>.
\<close>

datatype py_error =
    ZeroDivisionError
  | ValueError
  | OverflowError
  | KeyError string
  | IndexError
  | TypeError
  | AttributeError
  | MemoryError
  | FileNotFoundError
  | FileExistsError
  | NotADirectoryError
  | IsADirectoryError
  | ClientError string
  | ClientPayloadError
  | Exception string
  | CancelledError

fun is_Exception :: "py_error \<Rightarrow> bool" where
  "is_Exception CancelledError = False"
| "is_Exception _ = True"

text \<open>\<^verbatim>\<open>@dataclass class Tile: x: int; y: int; z: int\<close>\<close>

record Tile =
  tile_x :: int
  tile_y :: int
  tile_z :: int

text \<open>
  Two parts of the standard library are parameters of the model, so that what is proved
  holds whatever they do: \<open>format_rich\<close> is \<^verbatim>\<open>str.format\<close> with the keyword arguments
  \<open>x\<close>, \<open>y\<close>, \<open>z\<close> of a tile on a template that begins with a replacement field
  carrying a conversion, a format specification, an attribute or an index (as in
  \<^verbatim>\<open>{x:03d}\<close>); \<open>bracketed_host_ok\<close> is the check that
  \<^verbatim>\<open>urllib.parse.urlsplit\<close> makes of a host written in brackets, which newer releases
  of CPython 3.11 make with \<^verbatim>\<open>ipaddress\<close> and older ones do not make at all.
\<close>

record stdlib =
  format_rich :: "string \<Rightarrow> Tile \<Rightarrow> py_error + string"
  bracketed_host_ok :: "string \<Rightarrow> bool"

text \<open>\<^verbatim>\<open>range(a, b)\<close> over Python's unbounded integers.\<close>

definition py_range :: "int \<Rightarrow> int \<Rightarrow> int list" where
  "py_range a b = [a..b - 1]"

text \<open>\<^verbatim>\<open>int(f)\<close> of a float truncates toward zero.\<close>

definition py_int :: "real \<Rightarrow> int" where
  "py_int r = (if 0 \<le> r then \<lfloor>r\<rfloor> else \<lceil>r\<rceil>)"

section \<open>Projection: \<^verbatim>\<open>Crawler.find_tile\<close>\<close>

text \<open>
  \<^verbatim>\<open>self.tile_size = 256\<close>. Python floats are read as real numbers: rounding is not
  modelled. The two places where the float computation raises are branches of the
  model: the float division \<^verbatim>\<open>(1 + sin_latitude) / (1 - sin_latitude)\<close> raises
  \<^verbatim>\<open>ZeroDivisionError\<close> on a zero divisor, and \<^verbatim>\<open>math.log\<close> raises
  \<^verbatim>\<open>ValueError\<close> (math domain error) on an argument that is not positive.
\<close>

definition tile_size :: real where
  "tile_size = 256"

definition find_tile :: "real \<Rightarrow> real \<Rightarrow> int \<Rightarrow> py_error + Tile" where
  "find_tile latitude longitude level =
     (let sin_latitude = sin (latitude * pi / 180);
          pixel_x = ((longitude + 180) / 360) * tile_size * (2 powi level)
      in if 1 - sin_latitude = 0 then Inl ZeroDivisionError
         else if (1 + sin_latitude) / (1 - sin_latitude) \<le> 0 then Inl ValueError
         else
           let pixel_y = (0.5 - ln ((1 + sin_latitude) / (1 - sin_latitude)) / (4 * pi))
                           * tile_size * (2 powi level)
           in Inr \<lparr>tile_x = py_int (pixel_x / tile_size),
                   tile_y = py_int (pixel_y / tile_size),
                   tile_z = level\<rparr>)"

section \<open>Tile enumeration: the loops of \<^verbatim>\<open>Crawler.crawl_box\<close>\<close>

text \<open>
  \<^verbatim>\<open>for x in range(bounding_box[0].x, bounding_box[1].x + 1):
    for y in range(bounding_box[0].y, bounding_box[1].y + 1):
      tile = Tile(x=x, y=y, z=bounding_box[0].z)\<close>
\<close>

definition box_tiles :: "Tile \<times> Tile \<Rightarrow> Tile list" where
  "box_tiles bounding_box =
     concat (map (\<lambda>x. map (\<lambda>y. \<lparr>tile_x = x, tile_y = y, tile_z = tile_z (fst bounding_box)\<rparr>)
                         (py_range (tile_y (fst bounding_box)) (tile_y (snd bounding_box) + 1)))
                 (py_range (tile_x (fst bounding_box)) (tile_x (snd bounding_box) + 1)))"

section \<open>Strings\<close>

text \<open>
  \<^verbatim>\<open>str(n)\<close> of an integer, as \<^verbatim>\<open>str.format\<close> renders the fields of a tile: the decimal
  digits, with a minus sign when negative.
\<close>

definition digit_char :: "nat \<Rightarrow> char" where
  "digit_char d = ''0123456789'' ! d"

fun str_nat :: "nat \<Rightarrow> string" where
  "str_nat n = (if n < 10 then [digit_char n] else str_nat (n div 10) @ [digit_char (n mod 10)])"

declare str_nat.simps [simp del]

definition str_int :: "int \<Rightarrow> string" where
  "str_int i = (if i < 0 then CHR ''-'' # str_nat (nat (- i)) else str_nat (nat i))"

section \<open>\<^verbatim>\<open>str.format\<close> and \<^verbatim>\<open>Crawler.replace_path_tile\<close>\<close>

text \<open>
  \<^verbatim>\<open>self.path_template = "{z}/{x}/{y}"\<close> and
  \<^verbatim>\<open>def replace_path_tile(self, path, tile): return path.format(x=tile.x, y=tile.y, z=tile.z)\<close>.

  The model of \<^verbatim>\<open>str.format\<close> with the keyword arguments \<open>x\<close>, \<open>y\<close>, \<open>z\<close> reads the
  template from left to right and raises at the first fault, as Python does: \<open>{{\<close> and
  \<open>}}\<close> are literal braces, a lone brace raises \<^verbatim>\<open>ValueError\<close>, a field named by
  digits or by nothing is positional and raises \<^verbatim>\<open>IndexError\<close> (there are no positional
  arguments; \<^verbatim>\<open>ValueError\<close> when the number is above \<^verbatim>\<open>sys.maxsize\<close>, \<open>2 ^ 63 - 1\<close>),
  any other name than \<open>x\<close>, \<open>y\<close>, \<open>z\<close> raises \<^verbatim>\<open>KeyError\<close>. At the first field with a
  conversion, a format specification, an attribute or an index (one of \<open>! : . [ {\<close>
  before its closing brace) the rest of the template, from the opening brace of that
  field, is formatted by \<open>format_rich\<close>: what \<^verbatim>\<open>str.format\<close> does there, a string or
  an exception, is not fixed by the model.
\<close>

definition path_template :: string where
  "path_template = ''{z}/{x}/{y}''"

text \<open>The field up to the closing brace, and the rest of the template.\<close>

fun take_field :: "string \<Rightarrow> (string \<times> string) option" where
  "take_field [] = None"
| "take_field (c # cs) =
     (if c = CHR ''}'' then Some ([], cs)
      else case take_field cs of None \<Rightarrow> None | Some (f, r) \<Rightarrow> Some (c # f, r))"

definition is_digit :: "char \<Rightarrow> bool" where
  "is_digit c = (c \<in> set ''0123456789'')"

definition digits_value :: "string \<Rightarrow> nat" where
  "digits_value ds = foldl (\<lambda>n c. 10 * n + (of_char c - 48)) 0 ds"

definition is_rich_field :: "string \<Rightarrow> bool" where
  "is_rich_field name = list_ex (\<lambda>c. c \<in> set ''!:.[{'') name"

definition lookup_field :: "Tile \<Rightarrow> string \<Rightarrow> py_error + string" where
  "lookup_field tile name =
     (if name = ''x'' then Inr (str_int (tile_x tile))
      else if name = ''y'' then Inr (str_int (tile_y tile))
      else if name = ''z'' then Inr (str_int (tile_z tile))
      else if list_all is_digit name then
        (if 9223372036854775807 < digits_value name then Inl ValueError else Inl IndexError)
      else Inl (KeyError name))"

lemma take_field_shorter: "take_field cs = Some (f, r) \<Longrightarrow> length r < length cs"
  by (induction cs arbitrary: f r) (auto split: if_splits option.splits)

function replace_path_tile :: "stdlib \<Rightarrow> string \<Rightarrow> Tile \<Rightarrow> py_error + string" where
  "replace_path_tile lib [] tile = Inr []"
| "replace_path_tile lib (c # cs) tile =
     (if c = CHR ''{'' then
        (case cs of
           [] \<Rightarrow> Inl ValueError
         | c' # cs' \<Rightarrow>
             if c' = CHR ''{'' then
               (case replace_path_tile lib cs' tile of
                  Inl e \<Rightarrow> Inl e | Inr s \<Rightarrow> Inr (CHR ''{'' # s))
             else
               (case take_field cs of
                  None \<Rightarrow> Inl ValueError
                | Some (f, r) \<Rightarrow>
                    if is_rich_field f then format_rich lib (c # cs) tile
                    else
                      (case lookup_field tile f of
                         Inl e \<Rightarrow> Inl e
                       | Inr v \<Rightarrow>
                           (case replace_path_tile lib r tile of
                              Inl e \<Rightarrow> Inl e | Inr s \<Rightarrow> Inr (v @ s)))))
      else if c = CHR ''}'' then
        (case cs of
           [] \<Rightarrow> Inl ValueError
         | c' # cs' \<Rightarrow>
             if c' = CHR ''}'' then
               (case replace_path_tile lib cs' tile of
                  Inl e \<Rightarrow> Inl e | Inr s \<Rightarrow> Inr (CHR ''}'' # s))
             else Inl ValueError)
      else
        (case replace_path_tile lib cs tile of
           Inl e \<Rightarrow> Inl e | Inr s \<Rightarrow> Inr (c # s)))"
  by pat_completeness auto
termination
  by (relation "measure (\<lambda>(lib, p, t). length p)")
     (auto dest!: take_field_shorter simp del: take_field.simps)

section \<open>The extension of the URL template\<close>

text \<open>
  \<^verbatim>\<open>parsed_url = urlparse(url); path = Path(parsed_url.path)\<close> and \<^verbatim>\<open>path.suffix\<close>.
  Both are standard library code; the model follows \<^verbatim>\<open>urllib.parse.urlsplit\<close>,
  \<^verbatim>\<open>urlparse\<close>, \<^verbatim>\<open>_splitnetloc\<close>, \<^verbatim>\<open>_splitparams\<close> and \<^verbatim>\<open>PurePath.suffix\<close> of
  CPython 3.11 on a POSIX system: leading control characters and spaces are stripped, tab
  and newline characters removed, then the scheme, the network location, the fragment,
  the query and the parameters of the last segment are split off. A network location
  with one bracket and not the other raises \<^verbatim>\<open>ValueError\<close> (invalid IPv6 URL); with
  both, the host between the first \<open>[\<close> and the next \<open>]\<close> is checked by
  \<open>bracketed_host_ok\<close>, and \<^verbatim>\<open>ValueError\<close> is raised when it is refused. The check of
  the network location under NFKC normalisation never raises on the characters of the
  model (code points below 256).
\<close>

definition ascii_upper :: string where
  "ascii_upper = ''ABCDEFGHIJKLMNOPQRSTUVWXYZ''"

definition ascii_lower :: string where
  "ascii_lower = ''abcdefghijklmnopqrstuvwxyz''"

definition scheme_chars :: string where
  "scheme_chars = ascii_lower @ ascii_upper @ ''0123456789'' @ ''+-.''"

definition lower_char :: "char \<Rightarrow> char" where
  "lower_char c = (case map_of (zip ascii_upper ascii_lower) c of None \<Rightarrow> c | Some l \<Rightarrow> l)"

definition uses_params :: "string list" where
  "uses_params = ['''', ''ftp'', ''hdl'', ''prospero'', ''http'', ''imap'',
                  ''https'', ''shttp'', ''rtsp'', ''rtsps'', ''rtspu'', ''sip'',
                  ''sips'', ''mms'', ''sftp'', ''tel'']"

definition split_scheme :: "string \<Rightarrow> string \<times> string" where
  "split_scheme url =
     (let pre = takeWhile (\<lambda>c. c \<noteq> CHR '':'') url
      in if CHR '':'' \<in> set url \<and> pre \<noteq> [] \<and> hd pre \<in> set (ascii_lower @ ascii_upper)
            \<and> list_all (\<lambda>c. c \<in> set scheme_chars) pre
         then (map lower_char pre, drop (length pre + 1) url)
         else ([], url))"

definition splitnetloc :: "string \<Rightarrow> string \<times> string" where
  "splitnetloc url =
     (takeWhile (\<lambda>c. c \<notin> set ''/?#'') (drop 2 url),
      dropWhile (\<lambda>c. c \<notin> set ''/?#'') (drop 2 url))"

definition splitparams :: "string \<Rightarrow> string" where
  "splitparams url =
     (if CHR ''/'' \<in> set url then
        (let head = rev (dropWhile (\<lambda>c. c \<noteq> CHR ''/'') (rev url));
             seg = rev (takeWhile (\<lambda>c. c \<noteq> CHR ''/'') (rev url))
         in head @ takeWhile (\<lambda>c. c \<noteq> CHR '';'') seg)
      else takeWhile (\<lambda>c. c \<noteq> CHR '';'') url)"

definition bracketed_host :: "string \<Rightarrow> string" where
  "bracketed_host netloc =
     takeWhile (\<lambda>c. c \<noteq> CHR '']'') (drop 1 (dropWhile (\<lambda>c. c \<noteq> CHR ''['') netloc))"

definition urlparse_path :: "stdlib \<Rightarrow> string \<Rightarrow> py_error + string" where
  "urlparse_path lib url0 =
     (let url1 = dropWhile (\<lambda>c. (of_char c :: nat) \<le> 32) url0;
          url2 = filter (\<lambda>c. (of_char c :: nat) \<notin> {9, 10, 13}) url1;
          (scheme, url3) = split_scheme url2;
          (netloc, url4) = (if take 2 url3 = ''//'' then splitnetloc url3 else ([], url3))
      in if (CHR ''['' \<in> set netloc) \<noteq> (CHR '']'' \<in> set netloc) then Inl ValueError
         else if CHR ''['' \<in> set netloc \<and> \<not> bracketed_host_ok lib (bracketed_host netloc)
         then Inl ValueError
         else
           let url5 = takeWhile (\<lambda>c. c \<noteq> CHR ''#'') url4;
               url6 = takeWhile (\<lambda>c. c \<noteq> CHR ''?'') url5
           in Inr (if scheme \<in> set uses_params \<and> CHR '';'' \<in> set url6
                   then splitparams url6 else url6))"

text \<open>
  \<^verbatim>\<open>Path(p).name\<close>: the last component that is neither empty nor \<open>.\<close>, and
  \<^verbatim>\<open>suffix\<close>: \<^verbatim>\<open>i = name.rfind('.'); name[i:] if 0 < i < len(name) - 1 else ''\<close>.
\<close>

fun split_path :: "string \<Rightarrow> string \<Rightarrow> string list" where
  "split_path acc [] = [rev acc]"
| "split_path acc (c # cs) =
     (if c = CHR ''/'' then rev acc # split_path [] cs else split_path (c # acc) cs)"

definition path_name :: "string \<Rightarrow> string" where
  "path_name p =
     (case filter (\<lambda>part. part \<noteq> [] \<and> part \<noteq> ''.'') (split_path [] p) of
        [] \<Rightarrow> []
      | part # parts \<Rightarrow> last (part # parts))"

definition path_suffix :: "string \<Rightarrow> string" where
  "path_suffix p =
     (let name = path_name p;
          ext = rev (takeWhile (\<lambda>c. c \<noteq> CHR ''.'') (rev name))
      in if CHR ''.'' \<in> set name \<and> ext \<noteq> [] \<and> length ext + 1 < length name
         then CHR ''.'' # ext else [])"

section \<open>File system and network\<close>

text \<open>
  The two collaborators of a download. The file system is the set of directories, the
  files with their contents, and the effects of the run in the order they happen; paths
  are compared as strings. The network session answers a URL with a connection failure
  or with a response: its status and its body, \<open>None\<close> when reading the body fails.
\<close>

datatype event = Makedirs string | HttpGet string | OpenWrite string | WriteBody string

record world =
  dirs :: "string set"
  files :: "(string \<times> string) list"
  trace :: "event list"

datatype http_outcome = ConnectFailed string | Response int "string option"

type_synonym session = "string \<Rightarrow> http_outcome"

text \<open>
  \<^verbatim>\<open>os.path.dirname\<close> (posixpath):
  \<^verbatim>\<open>i = p.rfind('/') + 1; head = p[:i]
  if head and head != '/' * len(head): head = head.rstrip('/')
  return head\<close>
\<close>

definition rstrip :: "(char \<Rightarrow> bool) \<Rightarrow> string \<Rightarrow> string" where
  "rstrip P p = rev (dropWhile P (rev p))"

definition dirname :: "string \<Rightarrow> string" where
  "dirname p =
     (let head = rstrip (\<lambda>c. c \<noteq> CHR ''/'') p
      in if head \<noteq> [] \<and> \<not> list_all (\<lambda>c. c = CHR ''/'') head
         then rstrip (\<lambda>c. c = CHR ''/'') head else head)"

lemma length_rstrip: "length (rstrip P p) \<le> length p"
  by (simp add: rstrip_def length_dropWhile_le [of P "rev p", simplified])

lemma rstrip_same_length: "length (rstrip P p) = length p \<Longrightarrow> rstrip P p = p"
proof -
  assume a: "length (rstrip P p) = length p"
  have "rev p = takeWhile P (rev p) @ dropWhile P (rev p)"
    by simp
  then have "length p = length (takeWhile P (rev p)) + length (dropWhile P (rev p))"
    by (metis length_append length_rev)
  with a have "takeWhile P (rev p) = []"
    by (simp add: rstrip_def)
  then have "dropWhile P (rev p) = rev p"
    by (metis append_Nil takeWhile_dropWhile_id)
  then show ?thesis
    by (simp add: rstrip_def)
qed

lemma dirname_shorter: "dirname p \<noteq> p \<Longrightarrow> length (dirname p) < length p"
proof -
  assume ne: "dirname p \<noteq> p"
  let ?h = "rstrip (\<lambda>c. c \<noteq> CHR ''/'') p"
  have le: "length (dirname p) \<le> length ?h" "length ?h \<le> length p"
    by (simp_all add: dirname_def Let_def length_rstrip)
  show ?thesis
  proof (rule ccontr)
    assume "\<not> length (dirname p) < length p"
    with le have eq: "length ?h = length p" "length (dirname p) = length ?h"
      by simp_all
    then have h: "?h = p"
      by (simp add: rstrip_same_length)
    have "dirname p = ?h"
      using eq(2) by (auto simp: dirname_def Let_def rstrip_same_length split: if_splits)
    with h ne show False by simp
  qed
qed

text \<open>
  The directories \<^verbatim>\<open>os.makedirs(name, exist_ok=True)\<close> makes sure of: \<open>name\<close> and,
  before it, every parent that \<^verbatim>\<open>os.path.split\<close> finds, up to the empty path or the root.
\<close>

function ancestors :: "string \<Rightarrow> string list" where
  "ancestors p = (if p = [] \<or> dirname p = p then [] else ancestors (dirname p) @ [p])"
  by pat_completeness auto
termination
  by (relation "measure length") (auto dest: dirname_shorter)

declare ancestors.simps [simp del]

text \<open>
  \<^verbatim>\<open>os.makedirs(dirname, exist_ok=True)\<close>. The empty path raises
  \<^verbatim>\<open>FileNotFoundError\<close>; a regular file at \<open>name\<close> raises \<^verbatim>\<open>FileExistsError\<close>, and one at
  a parent \<^verbatim>\<open>NotADirectoryError\<close>. Existing directories are accepted.
\<close>

definition makedirs :: "string \<Rightarrow> world \<Rightarrow> py_error + world" where
  "makedirs name w =
     (if name = [] then Inl FileNotFoundError
      else if name \<in> fst ` set (files w) then Inl FileExistsError
      else if list_ex (\<lambda>p. p \<in> fst ` set (files w)) (ancestors name) then Inl NotADirectoryError
      else Inr (w\<lparr>dirs := dirs w \<union> set (ancestors name),
                  trace := trace w @ [Makedirs name]\<rparr>))"

text \<open>A file opened with mode \<^verbatim>\<open>'wb'\<close> is created or truncated, then takes the written bytes.\<close>

definition write_file :: "string \<Rightarrow> string \<Rightarrow> (string \<times> string) list \<Rightarrow> (string \<times> string) list" where
  "write_file path content fs = (path, content) # filter (\<lambda>(p, c). p \<noteq> path) fs"

text \<open>
  \<^verbatim>\<open>async def download_tile(self, session, source, target):
    dirname = os.path.dirname(target)
    os.makedirs(dirname, exist_ok=True)
    async with session.get(source) as resp:
        if resp.status == 200:
            async with aiofiles.open(target, mode='wb') as f:
                await f.write(await resp.read())
        else:
            raise Exception(f"{source} returned status {resp.status}")\<close>
  The result is the exception raised, or \<open>()\<close>, with the file system after the call.
  The calls to \<^verbatim>\<open>logging\<close> are left out.
\<close>

definition download_tile ::
  "session \<Rightarrow> string \<Rightarrow> string \<Rightarrow> world \<Rightarrow> (py_error + unit) \<times> world" where
  "download_tile session source target w =
     (case makedirs (dirname target) w of
        Inl e \<Rightarrow> (Inl e, w)
      | Inr w1 \<Rightarrow>
          let w2 = w1\<lparr>trace := trace w1 @ [HttpGet source]\<rparr>
          in case session source of
               ConnectFailed msg \<Rightarrow> (Inl (ClientError msg), w2)
             | Response status body \<Rightarrow>
                 if status = 200 then
                   if target \<in> dirs w2 \<or> (target \<noteq> [] \<and> last target = CHR ''/'')
                   then (Inl IsADirectoryError, w2)
                   else
                     let w3 = w2\<lparr>files := write_file target [] (files w2),
                                  trace := trace w2 @ [OpenWrite target]\<rparr>
                     in case body of
                          None \<Rightarrow> (Inl ClientPayloadError, w3)
                        | Some content \<Rightarrow>
                            (Inr (), w3\<lparr>files := write_file target content (files w3),
                                        trace := trace w3 @ [WriteBody target]\<rparr>)
                 else (Inl (Exception (source @ '' returned status '' @ str_int status)), w2))"

section \<open>Tasks and the worker pool\<close>

text \<open>
  A task is the coroutine \<^verbatim>\<open>self.download_tile(session, source, target)\<close>, created and
  not yet started. The body of the loops of \<^verbatim>\<open>crawl_box\<close> builds one for a tile:
  \<^verbatim>\<open>source = self.replace_path_tile(url, tile)
  parsed_url = urlparse(url)
  path = Path(parsed_url.path)
  target = f"{folder}/{self.replace_path_tile(self.path_template, tile)}{path.suffix}"
  await queue.put(self.download_tile(session, source, target))\<close>
  An exception of the body ends \<^verbatim>\<open>crawl_box\<close>.
\<close>

type_synonym task = "string \<times> string"

definition make_task :: "stdlib \<Rightarrow> string \<Rightarrow> string \<Rightarrow> Tile \<Rightarrow> py_error + task" where
  "make_task lib url folder tile =
     (case replace_path_tile lib url tile of
        Inl e \<Rightarrow> Inl e
      | Inr source \<Rightarrow>
          (case urlparse_path lib url of
             Inl e \<Rightarrow> Inl e
           | Inr path \<Rightarrow>
               (case replace_path_tile lib path_template tile of
                  Inl e \<Rightarrow> Inl e
                | Inr rel \<Rightarrow> Inr (source, folder @ ''/'' @ rel @ path_suffix path))))"

fun enqueue_all :: "stdlib \<Rightarrow> string \<Rightarrow> string \<Rightarrow> Tile list \<Rightarrow> py_error + task list" where
  "enqueue_all lib url folder [] = Inr []"
| "enqueue_all lib url folder (tile # tiles) =
     (case make_task lib url folder tile of
        Inl e \<Rightarrow> Inl e
      | Inr t \<Rightarrow>
          (case enqueue_all lib url folder tiles of
             Inl e \<Rightarrow> Inl e
           | Inr ts \<Rightarrow> Inr (t # ts)))"

text \<open>
  The pool: the \<^verbatim>\<open>asyncio.Queue\<close> (its items and its count of unfinished tasks), the
  worker coroutines, the progress bar (\<open>total\<close> and \<open>n\<close>), the errors logged by the
  workers, the file system, and whether \<^verbatim>\<open>queue.join()\<close> has returned. A worker waits in
  \<^verbatim>\<open>queue.get()\<close>, awaits a task, or has left its loop.
\<close>

datatype worker_state = Waiting | Running task | Exited

record pool =
  queue :: "task list"
  unfinished_tasks :: nat
  workers :: "worker_state list"
  progress_total :: nat
  progress_n :: nat
  error_log :: "py_error list"
  fs :: world
  joined :: bool

text \<open>\<^verbatim>\<open>parser.add_argument('--parallel-tasks', type=int, default=10)\<close>\<close>

definition default_parallel_tasks :: int where
  "default_parallel_tasks = 10"

text \<open>
  \<^verbatim>\<open>crawl_box\<close> up to the creation of the workers: the loops put every task, then
  \<^verbatim>\<open>progress = tqdm_asyncio(total=queue.qsize(), ...)\<close> and
  \<^verbatim>\<open>workers = [asyncio.create_task(worker(queue, progress)) for _ in range(num_workers)]\<close>.
\<close>

definition crawl_box_start ::
  "stdlib \<Rightarrow> Tile \<times> Tile \<Rightarrow> string \<Rightarrow> string \<Rightarrow> int \<Rightarrow> world \<Rightarrow> py_error + pool" where
  "crawl_box_start lib bounding_box url folder num_workers w =
     (case enqueue_all lib url folder (box_tiles bounding_box) of
        Inl e \<Rightarrow> Inl e
      | Inr tasks \<Rightarrow>
          Inr \<lparr>queue = tasks, unfinished_tasks = length tasks,
               workers = map (\<lambda>_. Waiting) (py_range 0 num_workers),
               progress_total = length tasks, progress_n = 0,
               error_log = [], fs = w, joined = False\<rparr>)"

text \<open>
  An instance of the library parameters for the concrete runs below, whose templates have
  plain fields and no bracketed host: it refuses every rich field and every such host.
\<close>

definition strict_stdlib :: stdlib where
  "strict_stdlib =
     \<lparr>format_rich = (\<lambda>template tile. Inl ValueError), bracketed_host_ok = (\<lambda>host. False)\<rparr>"

fun is_running :: "worker_state \<Rightarrow> bool" where
  "is_running (Running t) = True"
| "is_running _ = False"

definition in_flight :: "pool \<Rightarrow> nat" where
  "in_flight s = length (filter is_running (workers s))"

text \<open>
  One turn of the loop of \<^verbatim>\<open>worker\<close>, from the awaited task to the next \<^verbatim>\<open>queue.get()\<close>:
  \<^verbatim>\<open>try:
      await task_coro
  except Exception as e:
      logging.error(f"Error in task: {e}")
  finally:
      queue.task_done()
      if progress:
          progress.update(1)\<close>
  An exception that is not an \<^verbatim>\<open>Exception\<close> leaves the loop after the \<^verbatim>\<open>finally\<close>
  block. \<^verbatim>\<open>task_done\<close> raises \<^verbatim>\<open>ValueError\<close> when no task is unfinished, which ends the
  worker before the update. \<^verbatim>\<open>if progress\<close> is the truth value of the bar, \<open>total > 0\<close>.
  The effects of the task on the file system are applied when it resolves.
\<close>

definition worker_finish :: "session \<Rightarrow> nat \<Rightarrow> task \<Rightarrow> pool \<Rightarrow> pool" where
  "worker_finish session i t s =
     (let (result, w') = download_tile session (fst t) (snd t) (fs s);
          propagates = (case result of Inl e \<Rightarrow> \<not> is_Exception e | Inr u \<Rightarrow> False);
          s1 = s\<lparr>fs := w',
                 error_log := (case result of
                                 Inl e \<Rightarrow> if is_Exception e then error_log s @ [e] else error_log s
                               | Inr u \<Rightarrow> error_log s)\<rparr>
      in if unfinished_tasks s1 = 0 then s1\<lparr>workers := (workers s1)[i := Exited]\<rparr>
         else
           let s2 = s1\<lparr>unfinished_tasks := unfinished_tasks s1 - 1\<rparr>;
               s3 = (if 0 < progress_total s2 then s2\<lparr>progress_n := progress_n s2 + 1\<rparr> else s2)
           in s3\<lparr>workers := (workers s3)[i := if propagates then Exited else Waiting]\<rparr>)"

text \<open>\<^verbatim>\<open>worker_task.cancel()\<close> ends a worker that waits in \<^verbatim>\<open>queue.get()\<close>.\<close>

fun cancel :: "worker_state \<Rightarrow> worker_state" where
  "cancel Waiting = Exited"
| "cancel w = w"

text \<open>
  The interleavings of the event loop, one step per resumption: a waiting worker gets the
  next task of the queue; a worker's task resolves; \<^verbatim>\<open>await queue.join()\<close> returns, which
  needs the count of unfinished tasks at zero, and \<^verbatim>\<open>crawl_box\<close> cancels the workers.
\<close>

inductive step :: "session \<Rightarrow> pool \<Rightarrow> pool \<Rightarrow> bool" for session :: session where
  get: "\<not> joined s \<Longrightarrow> i < length (workers s) \<Longrightarrow> workers s ! i = Waiting \<Longrightarrow> queue s = t # q \<Longrightarrow>
        step session s (s\<lparr>queue := q, workers := (workers s)[i := Running t]\<rparr>)"
| finish: "\<not> joined s \<Longrightarrow> i < length (workers s) \<Longrightarrow> workers s ! i = Running t \<Longrightarrow>
        step session s (worker_finish session i t s)"
| join: "\<not> joined s \<Longrightarrow> unfinished_tasks s = 0 \<Longrightarrow>
        step session s (s\<lparr>joined := True, workers := map cancel (workers s)\<rparr>)"

text \<open>The invariant of the pool, for \<open>k\<close> workers and \<open>n\<close> enqueued tasks.\<close>

definition pool_inv :: "nat \<Rightarrow> nat \<Rightarrow> pool \<Rightarrow> bool" where
  "pool_inv k n s =
     (length (workers s) = k
      \<and> progress_total s = n
      \<and> unfinished_tasks s = length (queue s) + in_flight s
      \<and> progress_n s + unfinished_tasks s = n
      \<and> (if joined s then unfinished_tasks s = 0 else Exited \<notin> set (workers s)))"

section \<open>Properties of the enumeration\<close>

lemma length_py_range: "length (py_range a b) = nat (b - a)"
  by (simp add: py_range_def)

lemma distinct_py_range: "distinct (py_range a b)"
  by (simp add: py_range_def)

lemma length_concat_const:
  "(\<And>x. x \<in> set xs \<Longrightarrow> length (f x) = n) \<Longrightarrow> length (concat (map f xs)) = length xs * n"
  by (induction xs) simp_all

lemma length_box_tiles:
  "length (box_tiles (c1, c2)) =
     nat (tile_x c2 - tile_x c1 + 1) * nat (tile_y c2 - tile_y c1 + 1)"
proof -
  have "length (box_tiles (c1, c2)) =
          length (py_range (tile_x c1) (tile_x c2 + 1)) *
          length (py_range (tile_y c1) (tile_y c2 + 1))"
    unfolding box_tiles_def fst_conv snd_conv
    by (rule length_concat_const) simp
  moreover have "tile_x c2 + 1 - tile_x c1 = tile_x c2 - tile_x c1 + 1"
    and "tile_y c2 + 1 - tile_y c1 = tile_y c2 - tile_y c1 + 1"
    by simp_all
  ultimately show ?thesis
    by (simp only: length_py_range)
qed

lemma distinct_box_tiles: "distinct (box_tiles (c1, c2))"
proof -
  let ?row = "\<lambda>x. map (\<lambda>y. \<lparr>tile_x = x, tile_y = y, tile_z = tile_z c1\<rparr>)
                       (py_range (tile_y c1) (tile_y c2 + 1))"
  have rows: "distinct (?row x)" for x
    by (simp add: distinct_map distinct_py_range inj_on_def)
  have apart: "set (?row x) \<inter> set (?row x') = {}" if "x \<noteq> x'" for x x'
    using that by auto
  have "distinct (concat (map ?row xs))" if "distinct xs" for xs
    using that
  proof (induction xs)
    case Nil
    then show ?case by simp
  next
    case (Cons a xs)
    have "set (?row a) \<inter> set (concat (map ?row xs)) = {}"
      using Cons.prems by auto
    with Cons rows show ?case by simp
  qed
  then show ?thesis
    unfolding box_tiles_def fst_conv snd_conv
    using distinct_py_range by blast
qed

lemma box_tiles_same_corner: "box_tiles (c, c) = [c]"
  by (simp add: box_tiles_def py_range_def)

text \<open>
  C3, as the code has it. The ranges run from the first corner to the second in the
  order given: the enumeration has \<open>max 0 (x2 - x1 + 1) * max 0 (y2 - y1 + 1)\<close> tiles, all
  distinct. When the first corner is the top-left one (\<open>x1 \<le> x2\<close> and \<open>y1 \<le> y2\<close>) that is
  \<open>(|x2 - x1| + 1) * (|y2 - y1| + 1)\<close>, and identical corners give exactly that one tile.
\<close>

theorem box_tiles_count:
  "length (box_tiles (c1, c2)) =
     nat (tile_x c2 - tile_x c1 + 1) * nat (tile_y c2 - tile_y c1 + 1)
   \<and> distinct (box_tiles (c1, c2))
   \<and> (tile_x c1 \<le> tile_x c2 \<and> tile_y c1 \<le> tile_y c2 \<longrightarrow>
        int (length (box_tiles (c1, c2))) =
          (\<bar>tile_x c2 - tile_x c1\<bar> + 1) * (\<bar>tile_y c2 - tile_y c1\<bar> + 1))
   \<and> box_tiles (c1, c1) = [c1]"
proof -
  have "int (length (box_tiles (c1, c2))) =
          (\<bar>tile_x c2 - tile_x c1\<bar> + 1) * (\<bar>tile_y c2 - tile_y c1\<bar> + 1)"
    if "tile_x c1 \<le> tile_x c2" "tile_y c1 \<le> tile_y c2"
    using that by (simp add: length_box_tiles)
  then show ?thesis
    using length_box_tiles distinct_box_tiles box_tiles_same_corner by blast
qed

theorem box_tiles_count_witness:
  "tile_x \<lparr>tile_x = 2, tile_y = 5, tile_z = 4\<rparr> \<le> tile_x \<lparr>tile_x = 4, tile_y = 6, tile_z = 4\<rparr>
   \<and> tile_y \<lparr>tile_x = 2, tile_y = 5, tile_z = 4\<rparr> \<le> tile_y \<lparr>tile_x = 4, tile_y = 6, tile_z = 4\<rparr>
   \<and> length (box_tiles (\<lparr>tile_x = 2, tile_y = 5, tile_z = 4\<rparr>,
                          \<lparr>tile_x = 4, tile_y = 6, tile_z = 4\<rparr>)) = 6
   \<and> distinct (box_tiles (\<lparr>tile_x = 2, tile_y = 5, tile_z = 4\<rparr>,
                            \<lparr>tile_x = 4, tile_y = 6, tile_z = 4\<rparr>))"
  using box_tiles_count [of "\<lparr>tile_x = 2, tile_y = 5, tile_z = 4\<rparr>"
                            "\<lparr>tile_x = 4, tile_y = 6, tile_z = 4\<rparr>"]
  by simp

text \<open>
  C3 as stated fails when the corners come in the other order: from \<open>(1, 0)\<close> to
  \<open>(0, 0)\<close> the claim promises two tiles, and \<^verbatim>\<open>range(1, 1)\<close> is empty.
\<close>

theorem box_tiles_reversed_corners_empty:
  "box_tiles (\<lparr>tile_x = 1, tile_y = 0, tile_z = 0\<rparr>, \<lparr>tile_x = 0, tile_y = 0, tile_z = 0\<rparr>) = []
   \<and> (\<bar>0 - 1\<bar> + 1) * (\<bar>0 - 0\<bar> + 1) = (2 :: int)"
  by (simp add: box_tiles_def py_range_def)

section \<open>Properties of the projection\<close>

lemma sin_latitude_inside:
  assumes "- 90 < latitude" "latitude < 90"
  shows "- 1 < sin (latitude * pi / 180) \<and> sin (latitude * pi / 180) < 1"
proof -
  let ?a = "latitude * pi / 180"
  have "latitude * pi < 90 * pi" "(- 90) * pi < latitude * pi"
    using assms pi_gt_zero by (simp_all only: mult_less_cancel_right_pos)
  then have lo: "- (pi / 2) < ?a" and hi: "?a < pi / 2"
    by simp_all
  have "sin ?a < sin (pi / 2)"
    using lo hi by (intro sin_monotone_2pi) simp_all
  moreover have "sin (- (pi / 2)) < sin ?a"
    using lo hi by (intro sin_monotone_2pi) simp_all
  ultimately show ?thesis by simp
qed

text \<open>Away from the two singular sines the function returns this tile.\<close>

lemma find_tile_value:
  assumes "- 1 < sin (latitude * pi / 180)" "sin (latitude * pi / 180) < 1"
  shows "find_tile latitude longitude level =
           Inr \<lparr>tile_x = py_int (((longitude + 180) / 360) * (2 powi level)),
                tile_y = py_int ((1 / 2 - ln ((1 + sin (latitude * pi / 180)) /
                                          (1 - sin (latitude * pi / 180))) / (4 * pi))
                                   * (2 powi level)),
                tile_z = level\<rparr>"
proof -
  have pos: "0 < (1 + sin (latitude * pi / 180)) / (1 - sin (latitude * pi / 180))"
    using assms by simp
  have scale: "a * tile_size * b / tile_size = a * b" for a b :: real
    by (simp add: tile_size_def)
  have half: "(0.5 :: real) = 1 / 2"
    by simp
  have npos: "\<not> (1 + sin (latitude * pi / 180)) / (1 - sin (latitude * pi / 180)) \<le> 0"
    using pos by (simp only: not_le)
  have ne: "1 - sin (latitude * pi / 180) \<noteq> 0"
    using assms by simp
  show ?thesis
    unfolding find_tile_def Let_def scale half
    by (simp only: ne npos if_False)
qed








lemma cos_lower: "1 - x\<^sup>2 / 2 \<le> cos (x :: real)"
proof -
  have "\<bar>sin (x / 2)\<bar> \<le> \<bar>x / 2\<bar>"
    by (rule abs_sin_x_le_abs_x)
  then have "(sin (x / 2))\<^sup>2 \<le> (x / 2)\<^sup>2"
    by (simp only: abs_le_square_iff)
  moreover have "cos x = 1 - 2 * (sin (x / 2))\<^sup>2"
    using cos_double_sin [of "x / 2"] by simp
  ultimately show ?thesis
    by (simp add: power2_eq_square)
qed

lemma exp_two_pi_bound: "exp (2 * pi) \<le> 6561"
proof -
  have "exp (2 * pi) \<le> exp (8 :: real)"
    using pi_less_4 by simp
  also have "exp (8 :: real) = exp 1 ^ 8"
    using exp_of_nat_mult [of 8 "1 :: real"] by simp
  also have "\<dots> \<le> 3 ^ 8"
    by (intro power_mono exp_le) simp
  finally show ?thesis by simp
qed

text \<open>
  The restriction on the latitude is needed as well: one tenth of a degree from the south
  pole, at level \<open>0\<close>, the row index is at least \<open>1 = 2 ^ 0\<close>.
\<close>

lemma find_tile_near_south_pole:
  "\<exists>t. find_tile (- (899 / 10)) 0 0 = Inr t \<and> \<not> tile_y t < 2 ^ nat 0"
proof -
  define s where "s = sin (- (899 / 10) * pi / 180)"
  define c where "c = cos (pi / 1800)"
  have s_c: "s = - c"
  proof -
    have "s = - sin (899 * pi / 1800)"
      unfolding s_def using sin_minus [of "899 * pi / 1800"] by (simp add: field_simps)
    also have "sin (899 * pi / 1800) = cos (pi / 2 - 899 * pi / 1800)"
      using sin_cos_eq [of "899 * pi / 1800"] by simp
    also have "pi / 2 - 899 * pi / 1800 = pi / 1800"
      by (simp add: field_simps)
    finally show ?thesis by (simp add: c_def)
  qed
  have inside: "- 1 < s" "s < 1"
    using sin_latitude_inside [of "- (899 / 10)"] by (simp_all add: s_def)
  have c_pos: "0 < c"
    unfolding c_def using pi_gt_zero by (intro cos_gt_zero) simp_all
  have "(pi / 1800)\<^sup>2 \<le> (1 / 450)\<^sup>2"
    using pi_gt_zero pi_less_4 by (intro power_mono) simp_all
  then have c_low: "1 - c \<le> 1 / 405000"
    using cos_lower [of "pi / 1800"] by (simp add: c_def power2_eq_square)
  have c_lt: "0 < 1 - c"
    using inside s_c by simp
  define r where "r = (1 + s) / (1 - s)"
  have r_pos: "0 < r"
    using inside by (simp add: r_def)
  have "r = (1 - c) / (1 + c)"
    by (simp add: r_def s_c)
  also have "\<dots> \<le> (1 - c) / 1"
    using c_pos c_lt by (intro divide_left_mono) simp_all
  also have "\<dots> \<le> 1 / 6561"
    using c_low by simp
  also have "\<dots> \<le> 1 / exp (2 * pi)"
    using exp_two_pi_bound by (intro divide_left_mono) simp_all
  also have "\<dots> = exp (- (2 * pi))"
    by (simp add: exp_minus inverse_eq_divide)
  finally have "ln r \<le> ln (exp (- (2 * pi)))"
    using r_pos by (intro ln_mono) simp_all
  then have L: "ln r \<le> - (2 * pi)"
    by simp
  then have "1 / 2 \<le> - (ln r / (4 * pi))"
    using pi_gt_zero by (simp add: field_simps)
  define v where "v = (1 / 2 - ln r / (4 * pi)) * 2 powi 0"
  have v: "1 \<le> v"
    using \<open>1 / 2 \<le> - (ln r / (4 * pi))\<close> by (simp add: v_def)
  then have "py_int v = \<lfloor>v\<rfloor>"
    by (simp add: py_int_def)
  moreover have "1 \<le> \<lfloor>v\<rfloor>"
    using v by (simp add: le_floor_iff)
  ultimately have y: "1 \<le> py_int v"
    by simp
  have "find_tile (- (899 / 10)) 0 0 =
          Inr \<lparr>tile_x = py_int (((0 + 180) / 360) * (2 powi 0)),
               tile_y = py_int v, tile_z = 0\<rparr>"
    unfolding v_def r_def s_def
    using inside by (intro find_tile_value) (simp_all add: s_def)
  with y show ?thesis
    by simp
qed




section \<open>Properties of one download\<close>

lemma str_int_404: "str_int 404 = ''404''"
  by code_simp

subsection \<open>Failing downloads\<close>

lemma makedirs_effect:
  "makedirs d w = Inr w1 \<Longrightarrow>
     dirs w1 = dirs w \<union> set (ancestors d) \<and> files w1 = files w
     \<and> trace w1 = trace w @ [Makedirs d]"
  by (auto simp: makedirs_def split: if_splits)

text \<open>
  C4. When the GET is issued (the directories could be made) and the response has a
  status other than 200, \<open>download_tile\<close> raises an exception whose message is the source
  URL, the words \<open>returned status\<close> and the status code, and the files are what they
  were: no file is created at the target path.
\<close>

theorem download_tile_non_200:
  assumes "makedirs (dirname target) w = Inr w1"
    and "session source = Response status body"
    and "status \<noteq> 200"
  shows "fst (download_tile session source target w) =
           Inl (Exception (source @ '' returned status '' @ str_int status))
         \<and> files (snd (download_tile session source target w)) = files w"
  using assms makedirs_effect [OF assms(1)]
  by (simp add: download_tile_def Let_def)

theorem download_tile_non_200_witness:
  "makedirs (dirname ''out/7/3/5.png'') \<lparr>dirs = {}, files = [], trace = []\<rparr> =
     Inr \<lparr>dirs = {''out'', ''out/7'', ''out/7/3''}, files = [], trace = [Makedirs ''out/7/3'']\<rparr>
   \<and> (404 :: int) \<noteq> 200
   \<and> fst (download_tile (\<lambda>u. Response 404 None) ''https://example/7/3/5.png'' ''out/7/3/5.png''
            \<lparr>dirs = {}, files = [], trace = []\<rparr>) =
       Inl (Exception ''https://example/7/3/5.png returned status 404'')
   \<and> files (snd (download_tile (\<lambda>u. Response 404 None) ''https://example/7/3/5.png''
                   ''out/7/3/5.png'' \<lparr>dirs = {}, files = [], trace = []\<rparr>)) = []"
proof -
  have mk: "makedirs (dirname ''out/7/3/5.png'') \<lparr>dirs = {}, files = [], trace = []\<rparr> =
     Inr \<lparr>dirs = {''out'', ''out/7'', ''out/7/3''}, files = [], trace = [Makedirs ''out/7/3'']\<rparr>"
    by code_simp
  show ?thesis
    using mk download_tile_non_200 [OF mk, of "\<lambda>u. Response 404 None"
        "''https://example/7/3/5.png''" 404 None]
    by (simp add: str_int_404)
qed

text \<open>
  C9. \<open>download_tile\<close> makes the directories of the target before it issues the GET:
  when the connection fails or the status is not 200 the call raises, the trace of the
  call is the \<open>makedirs\<close> followed by the GET, the directories of the target path are on
  disk and no file has been written.
\<close>

theorem download_tile_failure_keeps_dirs:
  assumes "makedirs (dirname target) w = Inr w1"
    and "session source = ConnectFailed msg
         \<or> (session source = Response status body \<and> status \<noteq> 200)"
  shows "isl (fst (download_tile session source target w))
         \<and> dirs (snd (download_tile session source target w)) =
             dirs w \<union> set (ancestors (dirname target))
         \<and> trace (snd (download_tile session source target w)) =
             trace w @ [Makedirs (dirname target), HttpGet source]
         \<and> files (snd (download_tile session source target w)) = files w"
  using assms(2) makedirs_effect [OF assms(1)] assms(1)
  by (auto simp: download_tile_def Let_def)

theorem download_tile_failure_keeps_dirs_witness:
  "makedirs (dirname ''out/7/3/5.png'') \<lparr>dirs = {}, files = [], trace = []\<rparr> =
     Inr \<lparr>dirs = {''out'', ''out/7'', ''out/7/3''}, files = [], trace = [Makedirs ''out/7/3'']\<rparr>
   \<and> (500 :: int) \<noteq> 200
   \<and> isl (fst (download_tile (\<lambda>u. Response 500 None) ''https://example/7/3/5.png''
                 ''out/7/3/5.png'' \<lparr>dirs = {}, files = [], trace = []\<rparr>))
   \<and> dirs (snd (download_tile (\<lambda>u. Response 500 None) ''https://example/7/3/5.png''
                  ''out/7/3/5.png'' \<lparr>dirs = {}, files = [], trace = []\<rparr>)) =
       {''out'', ''out/7'', ''out/7/3''}
   \<and> trace (snd (download_tile (\<lambda>u. Response 500 None) ''https://example/7/3/5.png''
                   ''out/7/3/5.png'' \<lparr>dirs = {}, files = [], trace = []\<rparr>)) =
       [Makedirs ''out/7/3'', HttpGet ''https://example/7/3/5.png'']"
proof -
  have mk: "makedirs (dirname ''out/7/3/5.png'') \<lparr>dirs = {}, files = [], trace = []\<rparr> =
     Inr \<lparr>dirs = {''out'', ''out/7'', ''out/7/3''}, files = [], trace = [Makedirs ''out/7/3'']\<rparr>"
    by code_simp
  have dn: "dirname ''out/7/3/5.png'' = ''out/7/3''"
    by code_simp
  have an: "set (ancestors ''out/7/3'') = {''out'', ''out/7'', ''out/7/3''}"
    by code_simp
  show ?thesis
    using mk download_tile_failure_keeps_dirs [OF mk, of "\<lambda>u. Response 500 None"
        "''https://example/7/3/5.png''" "''''" 500 None]
    by (simp add: dn an)
qed

subsection \<open>Target paths\<close>

lemma replace_path_template:
  "replace_path_tile lib path_template tile =
     Inr (str_int (tile_z tile) @ ''/'' @ str_int (tile_x tile) @ ''/'' @ str_int (tile_y tile))"
  by (simp add: path_template_def lookup_field_def is_rich_field_def)

text \<open>
  A field with a format specification is handed to the library parameter, with the rest
  of the template: the model does not reject it.
\<close>

lemma replace_path_tile_rich_field:
  "replace_path_tile lib ''t/{x:03d}.png'' tile =
     (case format_rich lib ''{x:03d}.png'' tile of
        Inl e \<Rightarrow> Inl e | Inr s \<Rightarrow> Inr (''t/'' @ s))"
  by (simp add: is_rich_field_def split: sum.splits)

text \<open>
  C5. For every URL template, and whatever \<^verbatim>\<open>str.format\<close> and \<^verbatim>\<open>urlsplit\<close> do on the
  fields and hosts that the model leaves to its parameters: \<open>crawl_box\<close> builds the task
  of a tile exactly when \<^verbatim>\<open>str.format\<close> accepts the template (it gives the source) and
  \<^verbatim>\<open>urlparse\<close> accepts it (it gives the path), and then the target path is the folder,
  \<open>/\<close>, \<open>z/x/y\<close> in decimal, and the suffix of the path component of the URL template.
  The path, and so the suffix, is computed from the template alone: it is the same for
  every tile of a run.
\<close>

theorem make_task_target:
  "make_task lib url folder tile = Inr (source, target) \<longleftrightarrow>
     replace_path_tile lib url tile = Inr source
     \<and> (\<exists>path. urlparse_path lib url = Inr path
           \<and> target = folder @ ''/'' @ str_int (tile_z tile) @ ''/'' @ str_int (tile_x tile)
                        @ ''/'' @ str_int (tile_y tile) @ path_suffix path)"
  by (auto simp: make_task_def replace_path_template split: sum.splits)

theorem make_task_target_witness:
  "make_task strict_stdlib ''https://example/{z}/{x}/{y}.png'' ''out''
     \<lparr>tile_x = 3, tile_y = 5, tile_z = 7\<rparr> =
     Inr (''https://example/7/3/5.png'', ''out/7/3/5.png'')
   \<and> replace_path_tile strict_stdlib ''https://example/{z}/{x}/{y}.png''
        \<lparr>tile_x = 3, tile_y = 5, tile_z = 7\<rparr> = Inr ''https://example/7/3/5.png''
   \<and> urlparse_path strict_stdlib ''https://example/{z}/{x}/{y}.png'' = Inr ''/{z}/{x}/{y}.png''
   \<and> path_suffix ''/{z}/{x}/{y}.png'' = ''.png''
   \<and> ''out/7/3/5.png'' = ''out'' @ ''/'' @ str_int 7 @ ''/'' @ str_int 3 @ ''/'' @ str_int 5 @ ''.png''"
proof -
  have rp: "replace_path_tile strict_stdlib ''https://example/{z}/{x}/{y}.png''
              \<lparr>tile_x = 3, tile_y = 5, tile_z = 7\<rparr> = Inr ''https://example/7/3/5.png''"
    by code_simp
  have up: "urlparse_path strict_stdlib ''https://example/{z}/{x}/{y}.png'' =
              Inr ''/{z}/{x}/{y}.png''"
    by code_simp
  have ps: "path_suffix ''/{z}/{x}/{y}.png'' = ''.png''"
    by code_simp
  have tg: "''out/7/3/5.png'' =
              ''out'' @ ''/'' @ str_int 7 @ ''/'' @ str_int 3 @ ''/'' @ str_int 5 @ ''.png''"
    by code_simp
  have "make_task strict_stdlib ''https://example/{z}/{x}/{y}.png'' ''out''
          \<lparr>tile_x = 3, tile_y = 5, tile_z = 7\<rparr> =
        Inr (''https://example/7/3/5.png'', ''out/7/3/5.png'')"
    using make_task_target [of strict_stdlib "''https://example/{z}/{x}/{y}.png''" "''out''"
        "\<lparr>tile_x = 3, tile_y = 5, tile_z = 7\<rparr>" "''https://example/7/3/5.png''"
        "''out/7/3/5.png''"] rp up ps tg
    by simp
  with rp up ps tg show ?thesis
    by simp
qed

section \<open>Properties of the worker pool\<close>

lemma filter_update_count:
  "i < length xs \<Longrightarrow>
     length (filter P (xs[i := v])) + (if P (xs ! i) then 1 else 0) =
     length (filter P xs) + (if P v then 1 else 0)"
proof (induction xs arbitrary: i)
  case Nil
  then show ?case by simp
next
  case (Cons a xs)
  show ?case
  proof (cases i)
    case 0
    then show ?thesis by simp
  next
    case (Suc j)
    with Cons.prems have "j < length xs" by simp
    from Cons.IH [OF this] Suc show ?thesis by simp
  qed
qed

lemma in_flight_get:
  assumes "i < length (workers s)" "workers s ! i = Waiting"
  shows "in_flight (s\<lparr>queue := q, workers := (workers s)[i := Running t]\<rparr>) = Suc (in_flight s)"
  using filter_update_count [OF assms(1), of is_running "Running t"] assms(2)
  by (simp add: in_flight_def)

lemma in_flight_release:
  assumes "i < length ws" "ws ! i = Running t" "\<not> is_running v"
  shows "Suc (length (filter is_running (ws[i := v]))) = length (filter is_running ws)"
  using filter_update_count [OF assms(1), of is_running v] assms(2,3)
  by simp

lemma makedirs_error_is_Exception: "makedirs d w = Inl e \<Longrightarrow> is_Exception e"
  by (auto simp: makedirs_def split: if_splits)

lemma download_tile_error_is_Exception:
  "fst (download_tile session source target w) = Inl e \<Longrightarrow> is_Exception e"
  by (auto simp: download_tile_def Let_def
           dest: makedirs_error_is_Exception
           split: sum.splits http_outcome.splits if_splits option.splits)

lemma set_update_no_Exited:
  "Exited \<notin> set ws \<Longrightarrow> v \<noteq> Exited \<Longrightarrow> Exited \<notin> set (ws[i := v])"
  using set_update_subset_insert [of ws i v] by auto

text \<open>What one finished task does to the pool, whatever its outcome.\<close>

lemma worker_finish_effect:
  assumes "pool_inv k n s" "i < length (workers s)" "workers s ! i = Running t"
  shows "progress_n (worker_finish session i t s) = progress_n s + 1"
    and "unfinished_tasks (worker_finish session i t s) = unfinished_tasks s - 1"
    and "workers (worker_finish session i t s) = (workers s)[i := Waiting]"
    and "queue (worker_finish session i t s) = queue s"
    and "progress_total (worker_finish session i t s) = progress_total s"
    and "joined (worker_finish session i t s) = joined s"
    and "error_log (worker_finish session i t s) =
           (case fst (download_tile session (fst t) (snd t) (fs s)) of
              Inl e \<Rightarrow> error_log s @ [e] | Inr u \<Rightarrow> error_log s)"
proof -
  obtain r w' where d: "download_tile session (fst t) (snd t) (fs s) = (r, w')"
    by (cases "download_tile session (fst t) (snd t) (fs s)")
  have exc: "is_Exception e" if "r = Inl e" for e
    using download_tile_error_is_Exception [of session "fst t" "snd t" "fs s" e] d that
    by simp
  have "is_running (workers s ! i)"
    using assms(3) by simp
  then have "workers s ! i \<in> set (filter is_running (workers s))"
    using assms(2) by simp
  then have "0 < in_flight s"
    unfolding in_flight_def by (metis length_pos_if_in_set)
  then have pos: "0 < unfinished_tasks s" "0 < progress_total s"
    using assms(1) by (simp_all add: pool_inv_def)
  show "progress_n (worker_finish session i t s) = progress_n s + 1"
    using pos by (simp add: worker_finish_def d Let_def)
  show "unfinished_tasks (worker_finish session i t s) = unfinished_tasks s - 1"
    using pos by (simp add: worker_finish_def d Let_def)
  show "workers (worker_finish session i t s) = (workers s)[i := Waiting]"
    using pos exc by (cases r) (simp_all add: worker_finish_def d Let_def)
  show "queue (worker_finish session i t s) = queue s"
    using pos by (simp add: worker_finish_def d Let_def)
  show "progress_total (worker_finish session i t s) = progress_total s"
    using pos by (simp add: worker_finish_def d Let_def)
  show "joined (worker_finish session i t s) = joined s"
    using pos by (simp add: worker_finish_def d Let_def)
  show "error_log (worker_finish session i t s) =
           (case fst (download_tile session (fst t) (snd t) (fs s)) of
              Inl e \<Rightarrow> error_log s @ [e] | Inr u \<Rightarrow> error_log s)"
    using pos exc by (cases r) (simp_all add: worker_finish_def d Let_def)
qed

lemma step_preserves_inv:
  assumes "step session s s'" "pool_inv k n s"
  shows "pool_inv k n s'"
  using assms
proof (cases rule: step.cases)
  case (get i t q)
  have "Exited \<notin> set ((workers s)[i := Running t])"
    using get(2) assms(2) by (intro set_update_no_Exited) (simp_all add: pool_inv_def)
  then show ?thesis
    using assms(2) get in_flight_get [of i s t q]
    by (simp add: pool_inv_def)
next
  case (finish i t)
  note eff = worker_finish_effect [OF assms(2) finish(3,4), of session]
  have fl: "Suc (in_flight s') = in_flight s"
    using in_flight_release [OF finish(3,4), of Waiting]
    by (simp add: in_flight_def finish(1) eff(3))
  have "Exited \<notin> set ((workers s)[i := Waiting])"
    using finish(2) assms(2) by (intro set_update_no_Exited) (simp_all add: pool_inv_def)
  then show ?thesis
    using assms(2) fl unfolding pool_inv_def finish(1) eff
    by (auto simp: finish(1))
next
  case join
  have "filter is_running (map cancel ws) = filter is_running ws" for ws
  proof (induction ws)
    case Nil
    then show ?case by simp
  next
    case (Cons a ws)
    then show ?case by (cases a) simp_all
  qed
  then show ?thesis
    using assms(2) join by (simp add: pool_inv_def in_flight_def)
qed

lemma steps_preserve_inv:
  assumes "(step session)\<^sup>*\<^sup>* s0 s" "pool_inv k n s0"
  shows "pool_inv k n s"
  using assms
proof (induction rule: rtranclp_induct)
  case base
  then show ?case by simp
next
  case (step y z)
  from step.IH [OF step.prems] step.hyps(2) show ?case
    by (rule step_preserves_inv [rotated])
qed

lemma enqueue_all_length:
  "enqueue_all lib url folder tiles = Inr ts \<Longrightarrow> length ts = length tiles"
  by (induction tiles arbitrary: ts) (auto split: sum.splits)

lemma enqueue_all_tasks:
  "enqueue_all lib url folder tiles = Inr ts \<Longrightarrow>
     map Inr ts = map (make_task lib url folder) tiles"
  by (induction tiles arbitrary: ts) (auto split: sum.splits)

lemma crawl_box_start_inv:
  assumes "crawl_box_start lib bounding_box url folder num_workers w = Inr s0"
  shows "pool_inv (nat num_workers) (length (queue s0)) s0"
proof -
  obtain ts where s0: "s0 = \<lparr>queue = ts, unfinished_tasks = length ts,
               workers = map (\<lambda>_. Waiting) (py_range 0 num_workers),
               progress_total = length ts, progress_n = 0,
               error_log = [], fs = w, joined = False\<rparr>"
    using assms by (auto simp: crawl_box_start_def split: sum.splits)
  have "filter is_running (map (\<lambda>_. Waiting) xs) = []" for xs :: "int list"
    by (induction xs) simp_all
  then show ?thesis
    by (auto simp: pool_inv_def s0 in_flight_def length_py_range)
qed

lemma step_progress_mono:
  assumes "step session s s'" "pool_inv k n s"
  shows "progress_n s \<le> progress_n s' \<and> progress_n s' \<le> progress_n s + 1"
  using assms
proof (cases rule: step.cases)
  case (finish i t)
  then show ?thesis
    using worker_finish_effect(1) [OF assms(2) finish(3,4), of session] by simp
qed simp_all

subsection \<open>The queue never grows\<close>

lemma worker_finish_queue: "queue (worker_finish session i t s) = queue s"
  by (simp add: worker_finish_def Let_def split: prod.splits)

lemma step_queue_drop:
  assumes "step session s s'"
  shows "queue s' = queue s \<or> queue s' = drop 1 (queue s)"
  using assms by (cases rule: step.cases) (simp_all add: worker_finish_queue)

lemma steps_queue_drop:
  assumes "(step session)\<^sup>*\<^sup>* s0 s"
  shows "\<exists>k. queue s = drop k (queue s0)"
  using assms
proof (induction rule: rtranclp_induct)
  case base
  have "queue s0 = drop 0 (queue s0)" by simp
  then show ?case by (rule exI)
next
  case (step y z)
  then obtain k where k: "queue y = drop k (queue s0)" by blast
  from step_queue_drop [OF step.hyps(2)] show ?case
  proof
    assume "queue z = queue y"
    with k have "queue z = drop k (queue s0)" by simp
    then show ?thesis by (rule exI)
  next
    assume "queue z = drop 1 (queue y)"
    with k have "queue z = drop (1 + k) (queue s0)" by simp
    then show ?thesis by (rule exI)
  qed
qed

lemma crawl_box_start_fields:
  assumes "crawl_box_start lib bounding_box url folder num_workers w = Inr s0"
  shows "enqueue_all lib url folder (box_tiles bounding_box) = Inr (queue s0)"
    and "unfinished_tasks s0 = length (queue s0)"
    and "progress_total s0 = length (queue s0)"
    and "progress_n s0 = 0"
    and "workers s0 = map (\<lambda>_. Waiting) (py_range 0 num_workers)"
    and "fs s0 = w" and "\<not> joined s0" and "error_log s0 = []"
  using assms by (auto simp: crawl_box_start_def split: sum.splits)

lemma reachable_inv:
  assumes "crawl_box_start lib bounding_box url folder num_workers w = Inr s0"
    and "(step session)\<^sup>*\<^sup>* s0 s"
  shows "pool_inv (nat num_workers) (length (queue s0)) s"
  using steps_preserve_inv [OF assms(2) crawl_box_start_inv [OF assms(1)]] .

subsection \<open>A run of the pool on one tile\<close>

lemma one_tile_start:
  "crawl_box_start strict_stdlib (\<lparr>tile_x = 0, tile_y = 0, tile_z = 0\<rparr>, \<lparr>tile_x = 0, tile_y = 0, tile_z = 0\<rparr>)
     ''http://h/{z}/{x}/{y}.png'' ''o'' 2 \<lparr>dirs = {}, files = [], trace = []\<rparr> =
   Inr \<lparr>queue = [(''http://h/0/0/0.png'', ''o/0/0/0.png'')], unfinished_tasks = 1,
        workers = [Waiting, Waiting], progress_total = 1, progress_n = 0, error_log = [],
        fs = \<lparr>dirs = {}, files = [], trace = []\<rparr>, joined = False\<rparr>"
  by code_simp

lemma one_tile_get:
  "step session
     \<lparr>queue = [(''http://h/0/0/0.png'', ''o/0/0/0.png'')], unfinished_tasks = 1,
      workers = [Waiting, Waiting], progress_total = 1, progress_n = 0, error_log = [],
      fs = \<lparr>dirs = {}, files = [], trace = []\<rparr>, joined = False\<rparr>
     \<lparr>queue = [], unfinished_tasks = 1,
      workers = [Running (''http://h/0/0/0.png'', ''o/0/0/0.png''), Waiting],
      progress_total = 1, progress_n = 0, error_log = [],
      fs = \<lparr>dirs = {}, files = [], trace = []\<rparr>, joined = False\<rparr>"
  using step.get [of "\<lparr>queue = [(''http://h/0/0/0.png'', ''o/0/0/0.png'')], unfinished_tasks = 1,
      workers = [Waiting, Waiting], progress_total = 1, progress_n = 0, error_log = [],
      fs = \<lparr>dirs = {}, files = [], trace = []\<rparr>, joined = False\<rparr>" 0
      "(''http://h/0/0/0.png'', ''o/0/0/0.png'')" "[]" session]
  by simp

lemma one_tile_finish_value:
  "worker_finish (\<lambda>u. Response 404 None) 0 (''http://h/0/0/0.png'', ''o/0/0/0.png'')
     \<lparr>queue = [], unfinished_tasks = 1,
      workers = [Running (''http://h/0/0/0.png'', ''o/0/0/0.png''), Waiting],
      progress_total = 1, progress_n = 0, error_log = [],
      fs = \<lparr>dirs = {}, files = [], trace = []\<rparr>, joined = False\<rparr> =
   \<lparr>queue = [], unfinished_tasks = 0, workers = [Waiting, Waiting],
    progress_total = 1, progress_n = 1,
    error_log = [Exception ''http://h/0/0/0.png returned status 404''],
    fs = \<lparr>dirs = {''o'', ''o/0'', ''o/0/0''}, files = [],
          trace = [Makedirs ''o/0/0'', HttpGet ''http://h/0/0/0.png'']\<rparr>, joined = False\<rparr>"
  by code_simp

lemma one_tile_finish:
  "step (\<lambda>u. Response 404 None)
     \<lparr>queue = [], unfinished_tasks = 1,
      workers = [Running (''http://h/0/0/0.png'', ''o/0/0/0.png''), Waiting],
      progress_total = 1, progress_n = 0, error_log = [],
      fs = \<lparr>dirs = {}, files = [], trace = []\<rparr>, joined = False\<rparr>
     \<lparr>queue = [], unfinished_tasks = 0, workers = [Waiting, Waiting],
      progress_total = 1, progress_n = 1,
      error_log = [Exception ''http://h/0/0/0.png returned status 404''],
      fs = \<lparr>dirs = {''o'', ''o/0'', ''o/0/0''}, files = [],
            trace = [Makedirs ''o/0/0'', HttpGet ''http://h/0/0/0.png'']\<rparr>, joined = False\<rparr>"
proof -
  have "step (\<lambda>u. Response 404 None)
     \<lparr>queue = [], unfinished_tasks = 1,
      workers = [Running (''http://h/0/0/0.png'', ''o/0/0/0.png''), Waiting],
      progress_total = 1, progress_n = 0, error_log = [],
      fs = \<lparr>dirs = {}, files = [], trace = []\<rparr>, joined = False\<rparr>
     (worker_finish (\<lambda>u. Response 404 None) 0 (''http://h/0/0/0.png'', ''o/0/0/0.png'')
       \<lparr>queue = [], unfinished_tasks = 1,
        workers = [Running (''http://h/0/0/0.png'', ''o/0/0/0.png''), Waiting],
        progress_total = 1, progress_n = 0, error_log = [],
        fs = \<lparr>dirs = {}, files = [], trace = []\<rparr>, joined = False\<rparr>)"
    by (rule step.finish) simp_all
  then show ?thesis
    by (simp only: one_tile_finish_value)
qed

lemma one_tile_join:
  "step session
     \<lparr>queue = [], unfinished_tasks = 0, workers = [Waiting, Waiting],
      progress_total = 1, progress_n = 1,
      error_log = [Exception ''http://h/0/0/0.png returned status 404''],
      fs = \<lparr>dirs = {''o'', ''o/0'', ''o/0/0''}, files = [],
            trace = [Makedirs ''o/0/0'', HttpGet ''http://h/0/0/0.png'']\<rparr>, joined = False\<rparr>
     \<lparr>queue = [], unfinished_tasks = 0, workers = [Exited, Exited],
      progress_total = 1, progress_n = 1,
      error_log = [Exception ''http://h/0/0/0.png returned status 404''],
      fs = \<lparr>dirs = {''o'', ''o/0'', ''o/0/0''}, files = [],
            trace = [Makedirs ''o/0/0'', HttpGet ''http://h/0/0/0.png'']\<rparr>, joined = True\<rparr>"
  using step.join [of "\<lparr>queue = [], unfinished_tasks = 0, workers = [Waiting, Waiting],
      progress_total = 1, progress_n = 1,
      error_log = [Exception ''http://h/0/0/0.png returned status 404''],
      fs = \<lparr>dirs = {''o'', ''o/0'', ''o/0/0''}, files = [],
            trace = [Makedirs ''o/0/0'', HttpGet ''http://h/0/0/0.png'']\<rparr>, joined = False\<rparr>"
      session]
  by simp

subsection \<open>Accounting, termination and the bound on tasks in flight\<close>

text \<open>
  C6. In every state that the pool reaches: the counter is the number of resolved tasks
  (those neither queued nor in flight); no worker has left its loop while the pool runs;
  a task that resolves, with or without an error, adds exactly one to the counter, hands
  its worker back to the queue, leaves the other workers as they are, and logs the error
  if there is one; and no step decreases the counter or adds more than one.
\<close>

theorem worker_counts_every_task:
  assumes "crawl_box_start lib bounding_box url folder num_workers w = Inr s0"
    and "(step session)\<^sup>*\<^sup>* s0 s"
  shows "progress_n s + length (queue s) + in_flight s = length (queue s0)
         \<and> (joined s \<or> Exited \<notin> set (workers s))
         \<and> (\<forall>i t. i < length (workers s) \<and> workers s ! i = Running t \<longrightarrow>
               progress_n (worker_finish session i t s) = progress_n s + 1
               \<and> workers (worker_finish session i t s) = (workers s)[i := Waiting]
               \<and> error_log (worker_finish session i t s) =
                   (case fst (download_tile session (fst t) (snd t) (fs s)) of
                      Inl e \<Rightarrow> error_log s @ [e] | Inr u \<Rightarrow> error_log s))
         \<and> (\<forall>s'. step session s s' \<longrightarrow>
               progress_n s \<le> progress_n s' \<and> progress_n s' \<le> progress_n s + 1)"
proof -
  note inv = reachable_inv [OF assms]
  have count: "progress_n s + length (queue s) + in_flight s = length (queue s0)"
    using inv by (simp add: pool_inv_def)
  have alive: "joined s \<or> Exited \<notin> set (workers s)"
    using inv by (simp add: pool_inv_def split: if_splits)
  have fin: "progress_n (worker_finish session i t s) = progress_n s + 1
             \<and> workers (worker_finish session i t s) = (workers s)[i := Waiting]
             \<and> error_log (worker_finish session i t s) =
                 (case fst (download_tile session (fst t) (snd t) (fs s)) of
                    Inl e \<Rightarrow> error_log s @ [e] | Inr u \<Rightarrow> error_log s)"
    if "i < length (workers s)" "workers s ! i = Running t" for i t
    using worker_finish_effect(1,3,7) [OF inv that] by simp
  have mono: "progress_n s \<le> progress_n s' \<and> progress_n s' \<le> progress_n s + 1"
    if "step session s s'" for s'
    using step_progress_mono [OF that inv] .
  from count alive fin mono show ?thesis
    by blast
qed

theorem worker_counts_every_task_witness:
  "crawl_box_start strict_stdlib (\<lparr>tile_x = 0, tile_y = 0, tile_z = 0\<rparr>, \<lparr>tile_x = 0, tile_y = 0, tile_z = 0\<rparr>)
     ''http://h/{z}/{x}/{y}.png'' ''o'' 2 \<lparr>dirs = {}, files = [], trace = []\<rparr> =
   Inr \<lparr>queue = [(''http://h/0/0/0.png'', ''o/0/0/0.png'')], unfinished_tasks = 1,
        workers = [Waiting, Waiting], progress_total = 1, progress_n = 0, error_log = [],
        fs = \<lparr>dirs = {}, files = [], trace = []\<rparr>, joined = False\<rparr>
   \<and> (step (\<lambda>u. Response 404 None))\<^sup>*\<^sup>*
       \<lparr>queue = [(''http://h/0/0/0.png'', ''o/0/0/0.png'')], unfinished_tasks = 1,
        workers = [Waiting, Waiting], progress_total = 1, progress_n = 0, error_log = [],
        fs = \<lparr>dirs = {}, files = [], trace = []\<rparr>, joined = False\<rparr>
       \<lparr>queue = [], unfinished_tasks = 1,
        workers = [Running (''http://h/0/0/0.png'', ''o/0/0/0.png''), Waiting],
        progress_total = 1, progress_n = 0, error_log = [],
        fs = \<lparr>dirs = {}, files = [], trace = []\<rparr>, joined = False\<rparr>
   \<and> progress_n (worker_finish (\<lambda>u. Response 404 None) 0
        (''http://h/0/0/0.png'', ''o/0/0/0.png'')
        \<lparr>queue = [], unfinished_tasks = 1,
         workers = [Running (''http://h/0/0/0.png'', ''o/0/0/0.png''), Waiting],
         progress_total = 1, progress_n = 0, error_log = [],
         fs = \<lparr>dirs = {}, files = [], trace = []\<rparr>, joined = False\<rparr>) = 1
   \<and> workers (worker_finish (\<lambda>u. Response 404 None) 0
        (''http://h/0/0/0.png'', ''o/0/0/0.png'')
        \<lparr>queue = [], unfinished_tasks = 1,
         workers = [Running (''http://h/0/0/0.png'', ''o/0/0/0.png''), Waiting],
         progress_total = 1, progress_n = 0, error_log = [],
         fs = \<lparr>dirs = {}, files = [], trace = []\<rparr>, joined = False\<rparr>) = [Waiting, Waiting]"
proof -
  note reach = r_into_rtranclp [of "step (\<lambda>u. Response 404 None)", OF one_tile_get]
  from worker_counts_every_task [OF one_tile_start reach]
  have "\<forall>i t. i < length [Running (''http://h/0/0/0.png'', ''o/0/0/0.png''), Waiting]
          \<and> [Running (''http://h/0/0/0.png'', ''o/0/0/0.png''), Waiting] ! i = Running t \<longrightarrow>
        progress_n (worker_finish (\<lambda>u. Response 404 None) i t
          \<lparr>queue = [], unfinished_tasks = 1,
           workers = [Running (''http://h/0/0/0.png'', ''o/0/0/0.png''), Waiting],
           progress_total = 1, progress_n = 0, error_log = [],
           fs = \<lparr>dirs = {}, files = [], trace = []\<rparr>, joined = False\<rparr>) = 0 + 1
        \<and> workers (worker_finish (\<lambda>u. Response 404 None) i t
          \<lparr>queue = [], unfinished_tasks = 1,
           workers = [Running (''http://h/0/0/0.png'', ''o/0/0/0.png''), Waiting],
           progress_total = 1, progress_n = 0, error_log = [],
           fs = \<lparr>dirs = {}, files = [], trace = []\<rparr>, joined = False\<rparr>) =
          [Running (''http://h/0/0/0.png'', ''o/0/0/0.png''), Waiting][i := Waiting]"
    by simp
  from this [rule_format, of 0 "(''http://h/0/0/0.png'', ''o/0/0/0.png'')"] one_tile_start reach
  show ?thesis by simp
qed

text \<open>
  C7. Once \<^verbatim>\<open>queue.join()\<close> has returned, the queue is empty, no task is in flight and
  the counter has reached the number of enqueued tasks: every task has resolved.
\<close>

theorem crawl_box_returns_after_all_tasks:
  assumes "crawl_box_start lib bounding_box url folder num_workers w = Inr s0"
    and "(step session)\<^sup>*\<^sup>* s0 s"
    and "joined s"
  shows "queue s = [] \<and> in_flight s = 0 \<and> unfinished_tasks s = 0
         \<and> progress_n s = length (queue s0)"
  using reachable_inv [OF assms(1,2)] assms(3)
  by (auto simp: pool_inv_def)

theorem crawl_box_returns_after_all_tasks_witness:
  "crawl_box_start strict_stdlib (\<lparr>tile_x = 0, tile_y = 0, tile_z = 0\<rparr>, \<lparr>tile_x = 0, tile_y = 0, tile_z = 0\<rparr>)
     ''http://h/{z}/{x}/{y}.png'' ''o'' 2 \<lparr>dirs = {}, files = [], trace = []\<rparr> =
   Inr \<lparr>queue = [(''http://h/0/0/0.png'', ''o/0/0/0.png'')], unfinished_tasks = 1,
        workers = [Waiting, Waiting], progress_total = 1, progress_n = 0, error_log = [],
        fs = \<lparr>dirs = {}, files = [], trace = []\<rparr>, joined = False\<rparr>
   \<and> (step (\<lambda>u. Response 404 None))\<^sup>*\<^sup>*
       \<lparr>queue = [(''http://h/0/0/0.png'', ''o/0/0/0.png'')], unfinished_tasks = 1,
        workers = [Waiting, Waiting], progress_total = 1, progress_n = 0, error_log = [],
        fs = \<lparr>dirs = {}, files = [], trace = []\<rparr>, joined = False\<rparr>
       \<lparr>queue = [], unfinished_tasks = 0, workers = [Exited, Exited],
        progress_total = 1, progress_n = 1,
        error_log = [Exception ''http://h/0/0/0.png returned status 404''],
        fs = \<lparr>dirs = {''o'', ''o/0'', ''o/0/0''}, files = [],
              trace = [Makedirs ''o/0/0'', HttpGet ''http://h/0/0/0.png'']\<rparr>, joined = True\<rparr>
   \<and> in_flight
       \<lparr>queue = [], unfinished_tasks = 0, workers = [Exited, Exited],
        progress_total = 1, progress_n = 1,
        error_log = [Exception ''http://h/0/0/0.png returned status 404''],
        fs = \<lparr>dirs = {''o'', ''o/0'', ''o/0/0''}, files = [],
              trace = [Makedirs ''o/0/0'', HttpGet ''http://h/0/0/0.png'']\<rparr>, joined = True\<rparr> = 0"
proof -
  have reach: "(step (\<lambda>u. Response 404 None))\<^sup>*\<^sup>*
       \<lparr>queue = [(''http://h/0/0/0.png'', ''o/0/0/0.png'')], unfinished_tasks = 1,
        workers = [Waiting, Waiting], progress_total = 1, progress_n = 0, error_log = [],
        fs = \<lparr>dirs = {}, files = [], trace = []\<rparr>, joined = False\<rparr>
       \<lparr>queue = [], unfinished_tasks = 0, workers = [Exited, Exited],
        progress_total = 1, progress_n = 1,
        error_log = [Exception ''http://h/0/0/0.png returned status 404''],
        fs = \<lparr>dirs = {''o'', ''o/0'', ''o/0/0''}, files = [],
              trace = [Makedirs ''o/0/0'', HttpGet ''http://h/0/0/0.png'']\<rparr>, joined = True\<rparr>"
    using one_tile_get [of "\<lambda>u. Response 404 None"] one_tile_finish one_tile_join [of "\<lambda>u. Response 404 None"]
    by (meson rtranclp.rtrancl_into_rtrancl rtranclp.rtrancl_refl)
  from crawl_box_returns_after_all_tasks [OF one_tile_start reach] one_tile_start reach
  show ?thesis by simp
qed

text \<open>
  C8. In every state that the pool reaches, the tasks taken from the queue and not yet
  resolved are at most \<open>num_workers\<close> (none when it is not positive), whatever the number
  of enqueued tasks. The tasks taken are the first ones of the initial queue, the tasks
  resolved are those the counter has counted, and the difference is the number of
  workers that await a task. A download opens its connection and its file only while a
  worker awaits it, so this bounds the connections and the open files too.
\<close>

theorem in_flight_bounded:
  assumes "crawl_box_start lib bounding_box url folder num_workers w = Inr s0"
    and "(step session)\<^sup>*\<^sup>* s0 s"
  shows "length (queue s0) - length (queue s) - progress_n s \<le> nat num_workers
         \<and> length (queue s) + progress_n s \<le> length (queue s0)
         \<and> queue s = drop (length (queue s0) - length (queue s)) (queue s0)
         \<and> in_flight s = length (queue s0) - length (queue s) - progress_n s
         \<and> in_flight s \<le> nat num_workers \<and> length (workers s) = nat num_workers"
proof -
  note inv = reachable_inv [OF assms]
  have len: "length (workers s) = nat num_workers"
    using inv by (simp add: pool_inv_def)
  have count: "progress_n s + length (queue s) + in_flight s = length (queue s0)"
    using inv by (simp add: pool_inv_def)
  have le: "in_flight s \<le> length (workers s)"
    by (simp add: in_flight_def)
  obtain k where k: "queue s = drop k (queue s0)"
    using steps_queue_drop [OF assms(2)] by blast
  have prefix: "queue s = drop (length (queue s0) - length (queue s)) (queue s0)"
  proof (cases "k \<le> length (queue s0)")
    case True
    then have "length (queue s0) - length (queue s) = k"
      using k by simp
    with k show ?thesis by simp
  next
    case False
    then have "queue s = []"
      using k by simp
    then show ?thesis by simp
  qed
  have taken: "in_flight s = length (queue s0) - length (queue s) - progress_n s"
    and room: "length (queue s) + progress_n s \<le> length (queue s0)"
    using count by simp_all
  have bound: "in_flight s \<le> nat num_workers"
    using len le by simp
  from bound taken have "length (queue s0) - length (queue s) - progress_n s \<le> nat num_workers"
    by simp
  with room prefix taken bound len show ?thesis
    by (intro conjI)
qed

theorem in_flight_bounded_witness:
  "crawl_box_start strict_stdlib
     (\<lparr>tile_x = 0, tile_y = 0, tile_z = 0\<rparr>, \<lparr>tile_x = 0, tile_y = 0, tile_z = 0\<rparr>)
     ''http://h/{z}/{x}/{y}.png'' ''o'' 2 \<lparr>dirs = {}, files = [], trace = []\<rparr> =
   Inr \<lparr>queue = [(''http://h/0/0/0.png'', ''o/0/0/0.png'')], unfinished_tasks = 1,
        workers = [Waiting, Waiting], progress_total = 1, progress_n = 0, error_log = [],
        fs = \<lparr>dirs = {}, files = [], trace = []\<rparr>, joined = False\<rparr>
   \<and> (step (\<lambda>u. Response 404 None))\<^sup>*\<^sup>*
       \<lparr>queue = [(''http://h/0/0/0.png'', ''o/0/0/0.png'')], unfinished_tasks = 1,
        workers = [Waiting, Waiting], progress_total = 1, progress_n = 0, error_log = [],
        fs = \<lparr>dirs = {}, files = [], trace = []\<rparr>, joined = False\<rparr>
       \<lparr>queue = [], unfinished_tasks = 1,
        workers = [Running (''http://h/0/0/0.png'', ''o/0/0/0.png''), Waiting],
        progress_total = 1, progress_n = 0, error_log = [],
        fs = \<lparr>dirs = {}, files = [], trace = []\<rparr>, joined = False\<rparr>
   \<and> length [(''http://h/0/0/0.png'', ''o/0/0/0.png'')] - length ([] :: task list) - 0 \<le> nat 2
   \<and> in_flight
       \<lparr>queue = [], unfinished_tasks = 1,
        workers = [Running (''http://h/0/0/0.png'', ''o/0/0/0.png''), Waiting],
        progress_total = 1, progress_n = 0, error_log = [],
        fs = \<lparr>dirs = {}, files = [], trace = []\<rparr>, joined = False\<rparr> = 1"
proof -
  note reach = r_into_rtranclp [of "step (\<lambda>u. Response 404 None)", OF one_tile_get]
  from in_flight_bounded [OF one_tile_start reach] one_tile_start reach
  show ?thesis by simp
qed

text \<open>
  With the default of \<^verbatim>\<open>--parallel-tasks\<close> that is at most ten tasks taken from the queue
  and not yet resolved.
\<close>

lemma in_flight_default:
  assumes "crawl_box_start lib bounding_box url folder default_parallel_tasks w = Inr s0"
    and "(step session)\<^sup>*\<^sup>* s0 s"
  shows "length (queue s0) - length (queue s) - progress_n s \<le> 10"
proof -
  note inv = reachable_inv [OF assms]
  have "length (workers s) = 10"
    using inv by (simp add: pool_inv_def default_parallel_tasks_def)
  moreover have "in_flight s \<le> length (workers s)"
    by (simp add: in_flight_def)
  moreover have "progress_n s + length (queue s) + in_flight s = length (queue s0)"
    using inv by (simp add: pool_inv_def)
  ultimately show ?thesis by simp
qed

text \<open>
  The pool cannot stop half way when it has a worker: while \<^verbatim>\<open>queue.join()\<close> has not
  returned, some step is possible. Every step lowers the measure below, so every run
  is finite and ends with the return of \<^verbatim>\<open>queue.join()\<close>. With no worker and a task in
  the queue no step is possible: \<^verbatim>\<open>crawl_box\<close> waits for ever.
\<close>

lemma pool_can_step:
  assumes "pool_inv k n s" "\<not> joined s" "0 < k"
  shows "\<exists>s'. step session s s'"
proof (cases "unfinished_tasks s = 0")
  case True
  with assms(2) show ?thesis
    using step.join by blast
next
  case False
  show ?thesis
  proof (cases "in_flight s = 0")
    case True
    with False assms(1) have "queue s \<noteq> []"
      by (auto simp: pool_inv_def)
    then obtain t q where q: "queue s = t # q"
      by (cases "queue s") auto
    have len: "0 < length (workers s)"
      using assms(1,3) by (simp add: pool_inv_def)
    have "filter is_running (workers s) = []"
      using True by (simp add: in_flight_def)
    then have "\<not> is_running (workers s ! 0)"
      using len by (metis filter_empty_conv nth_mem)
    moreover have "workers s ! 0 \<in> set (workers s)"
      using len by (rule nth_mem)
    moreover have "Exited \<notin> set (workers s)"
      using assms(1,2) by (simp add: pool_inv_def)
    ultimately have "workers s ! 0 = Waiting"
      by (cases "workers s ! 0") auto
    from step.get [OF assms(2) len this q] show ?thesis
      by blast
  next
    case False
    then have "filter is_running (workers s) \<noteq> []"
      by (simp add: in_flight_def)
    then obtain st where "st \<in> set (workers s)" "is_running st"
      by (metis filter_empty_conv)
    then obtain i t where "i < length (workers s)" "workers s ! i = Running t"
      by (metis in_set_conv_nth is_running.elims(2))
    from step.finish [OF assms(2) this] show ?thesis
      by blast
  qed
qed

lemma step_measure_decreases:
  assumes "step session s s'" "pool_inv k n s"
  shows "2 * length (queue s') + in_flight s' + (if joined s' then 0 else 1)
         < 2 * length (queue s) + in_flight s + (if joined s then 0 else 1)"
proof -
  from assms(1) show ?thesis
  proof (cases rule: step.cases)
    case (get i t q)
    then show ?thesis
      using in_flight_get [of i s t q] by simp
  next
    case (finish i t)
    note eff = worker_finish_effect [OF assms(2) finish(3,4), of session]
    have "Suc (in_flight s') = in_flight s"
      using in_flight_release [OF finish(3,4), of Waiting]
      by (simp add: in_flight_def finish(1) eff(3))
    then show ?thesis
      using finish(2) by (simp add: finish(1) eff(4,6))
  next
    case join
    have "filter is_running (map cancel ws) = filter is_running ws" for ws
    proof (induction ws)
      case Nil
      then show ?case by simp
    next
      case (Cons a ws)
      then show ?case by (cases a) simp_all
    qed
    then show ?thesis
      using join by (simp add: in_flight_def)
  qed
qed

lemma no_worker_no_step:
  assumes "crawl_box_start lib bounding_box url folder num_workers w = Inr s0"
    and "num_workers \<le> 0" and "queue s0 \<noteq> []"
  shows "\<not> step session s0 s'"
proof
  assume "step session s0 s'"
  then show False
  proof (cases rule: step.cases)
    case (get i t q)
    then show ?thesis
      using crawl_box_start_fields(5) [OF assms(1)] assms(2) by (simp add: py_range_def)
  next
    case (finish i t)
    then show ?thesis
      using crawl_box_start_fields(5) [OF assms(1)] assms(2) by (simp add: py_range_def)
  next
    case join
    then show ?thesis
      using crawl_box_start_fields(2) [OF assms(1)] assms(3) by simp
  qed
qed

text \<open>
  C10. When the workers are created the queue holds the task of every tile of the
  rectangle, in the order of the enumeration: its size is the number of tiles, which is
  also the total of the progress bar; no worker has started; and from then on the queue
  is a suffix of this one, nothing is added to it.
\<close>

theorem crawl_box_start_queue:
  assumes "crawl_box_start lib (c1, c2) url folder num_workers w = Inr s0"
  shows "map Inr (queue s0) = map (make_task lib url folder) (box_tiles (c1, c2))
         \<and> length (queue s0) =
             nat (tile_x c2 - tile_x c1 + 1) * nat (tile_y c2 - tile_y c1 + 1)
         \<and> progress_total s0 = length (queue s0)
         \<and> unfinished_tasks s0 = length (queue s0)
         \<and> in_flight s0 = 0
         \<and> list_all (\<lambda>st. st = Waiting) (workers s0)
         \<and> progress_n s0 = 0 \<and> fs s0 = w
         \<and> ((step session)\<^sup>*\<^sup>* s0 s \<longrightarrow> (\<exists>k. queue s = drop k (queue s0)))"
proof -
  note f = crawl_box_start_fields [OF assms]
  have "length (queue s0) = length (box_tiles (c1, c2))"
    using enqueue_all_length [OF f(1)] .
  then have len: "length (queue s0) =
      nat (tile_x c2 - tile_x c1 + 1) * nat (tile_y c2 - tile_y c1 + 1)"
    by (simp add: length_box_tiles)
  have "in_flight s0 = 0"
    using crawl_box_start_inv [OF assms] f(2) by (simp add: pool_inv_def)
  moreover have "list_all (\<lambda>st. st = Waiting) (workers s0)"
    by (simp add: f(5) list_all_iff)
  ultimately show ?thesis
    using enqueue_all_tasks [OF f(1)] len f(2,3,4,6) steps_queue_drop [of session s0 s]
    by blast
qed

theorem crawl_box_start_queue_witness:
  "crawl_box_start strict_stdlib (\<lparr>tile_x = 0, tile_y = 0, tile_z = 1\<rparr>, \<lparr>tile_x = 1, tile_y = 0, tile_z = 1\<rparr>)
     ''http://h/{z}/{x}/{y}.png'' ''o'' 2 \<lparr>dirs = {}, files = [], trace = []\<rparr> =
   Inr \<lparr>queue = [(''http://h/1/0/0.png'', ''o/1/0/0.png''), (''http://h/1/1/0.png'', ''o/1/1/0.png'')],
        unfinished_tasks = 2,
        workers = [Waiting, Waiting], progress_total = 2, progress_n = 0, error_log = [],
        fs = \<lparr>dirs = {}, files = [], trace = []\<rparr>, joined = False\<rparr>
   \<and> length [(''http://h/1/0/0.png'', ''o/1/0/0.png''), (''http://h/1/1/0.png'', ''o/1/1/0.png'')] =
       nat (1 - 0 + 1) * nat (0 - 0 + 1)"
proof -
  have st: "crawl_box_start strict_stdlib (\<lparr>tile_x = 0, tile_y = 0, tile_z = 1\<rparr>, \<lparr>tile_x = 1, tile_y = 0, tile_z = 1\<rparr>)
     ''http://h/{z}/{x}/{y}.png'' ''o'' 2 \<lparr>dirs = {}, files = [], trace = []\<rparr> =
   Inr \<lparr>queue = [(''http://h/1/0/0.png'', ''o/1/0/0.png''), (''http://h/1/1/0.png'', ''o/1/1/0.png'')],
        unfinished_tasks = 2,
        workers = [Waiting, Waiting], progress_total = 2, progress_n = 0, error_log = [],
        fs = \<lparr>dirs = {}, files = [], trace = []\<rparr>, joined = False\<rparr>"
    by code_simp
  from crawl_box_start_queue [OF st] st show ?thesis
    by simp
qed

end
